theory Spec2Isabelle
  imports Main "HOL-Library.Multiset"
begin

section \<open>The question bank (types of \<open>src/app/page.tsx\<close>, lines 6-32)\<close>

type_synonym ChoiceKey = string

text \<open>
  \<open>Record<ChoiceKey, string>\<close> is a finite map from keys to texts. The field \<open>number\<close>
  is a JavaScript number read from JSON; the bank numbers its questions with integers.
\<close>

record Question =
  number :: int
  question :: string
  choices :: "ChoiceKey \<rightharpoonup> string"
  correct_answer :: ChoiceKey
  why_correct :: string
  why_incorrect :: "ChoiceKey \<rightharpoonup> string"

record Category =
  category :: string
  questions :: "Question list"

record Quiz =
  categories :: "Category list"

type_synonym QuizBank = "string \<rightharpoonup> Quiz"

text \<open>
  \<open>EnrichedQuestion = Question & { category: string }\<close>. The added field is called
  \<open>ecategory\<close> here, since \<open>category\<close> already names the field of \<open>Category\<close>.
\<close>

record EnrichedQuestion = Question +
  ecategory :: string

definition quizOrder :: "string list" where
  "quizOrder = [''quiz1'', ''quiz2'', ''quiz3'']"

section \<open>JavaScript helpers\<close>

text \<open>
  Truthiness of a value of type \<open>string | null\<close>: \<open>null\<close> and the empty string are
  falsy, every other string is truthy.
\<close>

definition truthy :: "string option \<Rightarrow> bool" where
  "truthy v = (case v of None \<Rightarrow> False | Some k \<Rightarrow> k \<noteq> [])"

text \<open>
  \<open>Array.prototype.sort(cmp)\<close> is stable, and for a consistent comparator its result
  is the one stable ordering of the input; insertion from the right computes it: an
  element goes in front of the first element it does not compare greater than.
\<close>

fun insert_by :: "('a \<Rightarrow> 'a \<Rightarrow> int) \<Rightarrow> 'a \<Rightarrow> 'a list \<Rightarrow> 'a list" where
  "insert_by cmp x [] = [x]"
| "insert_by cmp x (y # ys) = (if cmp x y \<le> 0 then x # y # ys else y # insert_by cmp x ys)"

definition sort_by :: "('a \<Rightarrow> 'a \<Rightarrow> int) \<Rightarrow> 'a list \<Rightarrow> 'a list" where
  "sort_by cmp xs = foldr (insert_by cmp) xs []"

section \<open>The flattened question list (lines 45-57)\<close>

text \<open>The object literal \<open>{ ...question, category: category.category }\<close>.\<close>

definition enrich :: "Category \<Rightarrow> Question \<Rightarrow> EnrichedQuestion" where
  "enrich c q =
     \<lparr>number = number q, question = question q, choices = choices q,
      correct_answer = correct_answer q, why_correct = why_correct q,
      why_incorrect = why_incorrect q, ecategory = category c\<rparr>"

text \<open>The comparator \<open>(a, b) => a.number - b.number\<close>.\<close>

definition compareNumber :: "EnrichedQuestion \<Rightarrow> EnrichedQuestion \<Rightarrow> int" where
  "compareNumber a b = number a - number b"

text \<open>\<open>quiz.categories.flatMap(category => category.questions.map(...))\<close>, unsorted.\<close>

definition flatMapped :: "Quiz \<Rightarrow> EnrichedQuestion list" where
  "flatMapped quiz = concat (map (\<lambda>c. map (enrich c) (questions c)) (categories quiz))"

definition flatten :: "Quiz \<Rightarrow> EnrichedQuestion list" where
  "flatten quiz = sort_by compareNumber (flatMapped quiz)"

text \<open>
  The memoised value \<open>questions\<close>, a function of the bank and of \<open>activeQuizId\<close>.
  The guard \<open>!activeQuizId\<close> holds for \<open>null\<close> and for the empty string.
\<close>

definition questionsOf :: "QuizBank \<Rightarrow> string option \<Rightarrow> EnrichedQuestion list" where
  "questionsOf quizBank activeQuizId =
     (case activeQuizId of
        None \<Rightarrow> []
      | Some i \<Rightarrow>
          if \<not> truthy (Some i) then []
          else (case quizBank i of None \<Rightarrow> [] | Some quiz \<Rightarrow> flatten quiz))"

section \<open>The session state (the five \<open>useState\<close> cells, lines 37-43)\<close>

record Session =
  activeQuizId :: "string option"
  questionIndex :: nat
  selectedChoice :: "ChoiceKey option"
  finished :: bool
  submitted :: bool

text \<open>The state at mount: \<open>quizBank.quiz1 ? "quiz1" : null\<close>, and the defaults.\<close>

definition initial :: "QuizBank \<Rightarrow> Session" where
  "initial quizBank =
     \<lparr>activeQuizId = (if quizBank ''quiz1'' \<noteq> None then Some ''quiz1'' else None),
      questionIndex = 0, selectedChoice = None, finished = False, submitted = False\<rparr>"

text \<open>\<open>questions[questionIndex]\<close>: \<open>undefined\<close> when the index is out of range.\<close>

definition currentQuestion :: "QuizBank \<Rightarrow> Session \<Rightarrow> EnrichedQuestion option" where
  "currentQuestion quizBank s =
     (let qs = questionsOf quizBank (activeQuizId s)
      in if questionIndex s < length qs then Some (qs ! questionIndex s) else None)"

text \<open>Lines 68-71.\<close>

definition isCorrect :: "QuizBank \<Rightarrow> Session \<Rightarrow> bool" where
  "isCorrect quizBank s =
     (if submitted s \<and> truthy (selectedChoice s) \<and> currentQuestion quizBank s \<noteq> None
      then selectedChoice s = map_option correct_answer (currentQuestion quizBank s)
      else False)"

subsection \<open>The handlers\<close>

text \<open>\<open>handleSelect\<close>, lines 80-83.\<close>

definition handleSelect :: "ChoiceKey \<Rightarrow> Session \<Rightarrow> Session" where
  "handleSelect choice s = s\<lparr>selectedChoice := Some choice, submitted := False\<rparr>"

text \<open>\<open>handleSubmit\<close>, lines 85-88.\<close>

definition handleSubmit :: "Session \<Rightarrow> Session" where
  "handleSubmit s = (if \<not> truthy (selectedChoice s) then s else s\<lparr>submitted := True\<rparr>)"

text \<open>
  \<open>handleNext\<close>, lines 90-98. The comparison is with \<open>questions.length - 1\<close>, which is
  \<open>-1\<close> for the empty list, so it is made on integers.
\<close>

definition handleNext :: "QuizBank \<Rightarrow> Session \<Rightarrow> Session" where
  "handleNext quizBank s =
     (if int (questionIndex s) < int (length (questionsOf quizBank (activeQuizId s))) - 1
      then s\<lparr>questionIndex := questionIndex s + 1, selectedChoice := None, submitted := False\<rparr>
      else s\<lparr>finished := True\<rparr>)"

text \<open>The body of the effect of lines 59-65.\<close>

definition resetProgress :: "Session \<Rightarrow> Session" where
  "resetProgress s =
     s\<lparr>questionIndex := 0, selectedChoice := None, finished := False, submitted := False\<rparr>"

text \<open>
  \<open>setActiveQuizId(v)\<close> followed by the effect, whose dependency list is
  \<open>[activeQuizId]\<close>: the effect runs when the stored identifier has changed, and a
  call that stores the identifier already held changes nothing.
\<close>

definition setActiveQuizId :: "string option \<Rightarrow> Session \<Rightarrow> Session" where
  "setActiveQuizId v s =
     (if activeQuizId s = v then s else resetProgress (s\<lparr>activeQuizId := v\<rparr>))"

text \<open>The click handler of the replay button, lines 320-324.\<close>

definition replayClick :: "Session \<Rightarrow> Session" where
  "replayClick s = s\<lparr>questionIndex := 0, selectedChoice := None, finished := False\<rparr>"

subsection \<open>What is rendered\<close>

text \<open>Line 108, line 109, and the condition of lines 183-186 under which the question
  panel (choices, Submit, Next) is rendered.\<close>

definition readyToSubmit :: "Session \<Rightarrow> bool" where
  "readyToSubmit s = truthy (selectedChoice s)"

definition noQuestionsLoaded :: "QuizBank \<Rightarrow> Session \<Rightarrow> bool" where
  "noQuestionsLoaded quizBank s =
     (truthy (activeQuizId s) \<and> length (questionsOf quizBank (activeQuizId s)) = 0)"

definition questionPanel :: "QuizBank \<Rightarrow> Session \<Rightarrow> bool" where
  "questionPanel quizBank s =
     (\<not> noQuestionsLoaded quizBank s \<and> truthy (activeQuizId s) \<and>
      currentQuestion quizBank s \<noteq> None \<and> \<not> finished s)"

subsection \<open>The operations: a click on a control that is rendered and enabled\<close>

text \<open>
  A handler runs only through its control. The quiz buttons are always rendered
  (lines 121-156). A choice button exists for each key of the current question's
  \<open>choices\<close>, inside the question panel (lines 209-227). Submit is rendered while
  \<open>!submitted\<close> and disabled while \<open>!readyToSubmit\<close> (lines 277-290); Next is rendered
  while \<open>submitted\<close> (lines 291-302). Replay and "Pick another quiz" are rendered while
  \<open>finished\<close> (lines 307-337). An operation whose control is absent or disabled leaves
  the session as it is.
\<close>

definition selectQuiz :: "string \<Rightarrow> Session \<Rightarrow> Session" where
  "selectQuiz quizId s = setActiveQuizId (Some quizId) s"

definition selectChoice :: "QuizBank \<Rightarrow> ChoiceKey \<Rightarrow> Session \<Rightarrow> Session" where
  "selectChoice quizBank key s =
     (case currentQuestion quizBank s of
        None \<Rightarrow> s
      | Some q \<Rightarrow>
          if questionPanel quizBank s \<and> choices q key \<noteq> None then handleSelect key s else s)"

definition submit :: "QuizBank \<Rightarrow> Session \<Rightarrow> Session" where
  "submit quizBank s =
     (if questionPanel quizBank s \<and> \<not> submitted s \<and> readyToSubmit s
      then handleSubmit s else s)"

definition advance :: "QuizBank \<Rightarrow> Session \<Rightarrow> Session" where
  "advance quizBank s =
     (if questionPanel quizBank s \<and> submitted s then handleNext quizBank s else s)"

definition replay :: "Session \<Rightarrow> Session" where
  "replay s = (if finished s then replayClick s else s)"

definition exitQuiz :: "Session \<Rightarrow> Session" where
  "exitQuiz s = (if finished s then setActiveQuizId None s else s)"

subsection \<open>Runs of the session\<close>

datatype event =
  SelectQuiz string | SelectChoice ChoiceKey | Submit | Advance | Replay | ExitQuiz

fun step :: "QuizBank \<Rightarrow> event \<Rightarrow> Session \<Rightarrow> Session" where
  "step quizBank (SelectQuiz quizId) s = selectQuiz quizId s"
| "step quizBank (SelectChoice key) s = selectChoice quizBank key s"
| "step quizBank Submit s = submit quizBank s"
| "step quizBank Advance s = advance quizBank s"
| "step quizBank Replay s = replay s"
| "step quizBank ExitQuiz s = exitQuiz s"

fun run :: "QuizBank \<Rightarrow> event list \<Rightarrow> Session \<Rightarrow> Session" where
  "run quizBank [] s = s"
| "run quizBank (e # es) s = run quizBank es (step quizBank e s)"

text \<open>The sessions the component can be in: the state at mount and what the
  operations make of it.\<close>

inductive reachable :: "QuizBank \<Rightarrow> Session \<Rightarrow> bool" for quizBank where
  at_mount: "reachable quizBank (initial quizBank)"
| after_step: "reachable quizBank s \<Longrightarrow> reachable quizBank (step quizBank e s)"

text \<open>A run during which the question list is empty after every operation.\<close>

fun keepsEmpty :: "QuizBank \<Rightarrow> event list \<Rightarrow> Session \<Rightarrow> bool" where
  "keepsEmpty quizBank [] s = True"
| "keepsEmpty quizBank (e # es) s =
     (questionsOf quizBank (activeQuizId (step quizBank e s)) = [] \<and>
      keepsEmpty quizBank es (step quizBank e s))"

text \<open>What every reachable session satisfies.\<close>

definition sessionInv :: "QuizBank \<Rightarrow> Session \<Rightarrow> bool" where
  "sessionInv quizBank s =
     ((selectedChoice s \<noteq> None \<or> submitted s \<or> finished s \<longrightarrow>
         truthy (activeQuizId s) \<and>
         questionIndex s < length (questionsOf quizBank (activeQuizId s))) \<and>
      (finished s \<longrightarrow>
         submitted s \<and> Suc (questionIndex s) = length (questionsOf quizBank (activeQuizId s))) \<and>
      (submitted s \<longrightarrow> selectedChoice s \<noteq> Some []))"

section \<open>A small bank for concrete runs\<close>

text \<open>
  Quiz 1 lists question 2 before question 1 in its one category; quiz 2 has one question
  with the empty string among its choice keys; there is no quiz 3.
\<close>

definition questionOne :: Question where
  "questionOne =
     \<lparr>number = 1, question = ''First?'', choices = [''A'' \<mapsto> ''yes'', ''B'' \<mapsto> ''no''],
      correct_answer = ''A'', why_correct = ''A is right'',
      why_incorrect = [''B'' \<mapsto> ''B is wrong'']\<rparr>"

definition questionTwo :: Question where
  "questionTwo =
     \<lparr>number = 2, question = ''Second?'', choices = [''A'' \<mapsto> ''no'', ''B'' \<mapsto> ''yes''],
      correct_answer = ''B'', why_correct = ''B is right'',
      why_incorrect = [''A'' \<mapsto> ''A is wrong'']\<rparr>"

definition questionBlank :: Question where
  "questionBlank =
     \<lparr>number = 7, question = ''Blank?'', choices = [[] \<mapsto> ''nothing'', ''A'' \<mapsto> ''something''],
      correct_answer = [], why_correct = ''blank is right'',
      why_incorrect = [''A'' \<mapsto> ''A is wrong'']\<rparr>"

definition quizA :: Quiz where
  "quizA = \<lparr>categories = [\<lparr>category = ''Basics'', questions = [questionTwo, questionOne]\<rparr>]\<rparr>"

definition quizB :: Quiz where
  "quizB = \<lparr>categories = [\<lparr>category = ''Edge'', questions = [questionBlank]\<rparr>]\<rparr>"

definition exampleBank :: QuizBank where
  "exampleBank = [''quiz1'' \<mapsto> quizA, ''quiz2'' \<mapsto> quizB]"

definition enrichedOne :: EnrichedQuestion where
  "enrichedOne = enrich \<lparr>category = ''Basics'', questions = [questionTwo, questionOne]\<rparr> questionOne"

definition enrichedTwo :: EnrichedQuestion where
  "enrichedTwo = enrich \<lparr>category = ''Basics'', questions = [questionTwo, questionOne]\<rparr> questionTwo"

definition enrichedBlank :: EnrichedQuestion where
  "enrichedBlank = enrich \<lparr>category = ''Edge'', questions = [questionBlank]\<rparr> questionBlank"

text \<open>A session in the middle of quiz 1: the second question answered and submitted.\<close>

definition midSession :: Session where
  "midSession =
     \<lparr>activeQuizId = Some ''quiz1'', questionIndex = 1, selectedChoice = Some ''B'',
      finished = False, submitted = True\<rparr>"

text \<open>A session on the first question of quiz 1, answered and submitted.\<close>

definition firstSubmitted :: Session where
  "firstSubmitted =
     \<lparr>activeQuizId = Some ''quiz1'', questionIndex = 0, selectedChoice = Some ''B'',
      finished = False, submitted = True\<rparr>"

text \<open>A session on the absent quiz 3: no questions, nothing selected.\<close>

definition emptySession :: Session where
  "emptySession =
     \<lparr>activeQuizId = Some ''quiz3'', questionIndex = 0, selectedChoice = None,
      finished = False, submitted = False\<rparr>"

text \<open>A session after the last question of quiz 1: finished.\<close>

definition finishedSession :: Session where
  "finishedSession =
     \<lparr>activeQuizId = Some ''quiz1'', questionIndex = 1, selectedChoice = Some ''B'',
      finished = True, submitted = True\<rparr>"

text \<open>A session on the first question of quiz 1 with B picked and not yet submitted.\<close>

definition pickedSession :: Session where
  "pickedSession =
     \<lparr>activeQuizId = Some ''quiz1'', questionIndex = 0, selectedChoice = Some ''B'',
      finished = False, submitted = False\<rparr>"

text \<open>A session on quiz 2, whose one question has the empty string as a choice key,
  and the same session with that choice picked.\<close>

definition blankSession :: Session where
  "blankSession =
     \<lparr>activeQuizId = Some ''quiz2'', questionIndex = 0, selectedChoice = None,
      finished = False, submitted = False\<rparr>"

definition blankPicked :: Session where
  "blankPicked =
     \<lparr>activeQuizId = Some ''quiz2'', questionIndex = 0, selectedChoice = Some [],
      finished = False, submitted = False\<rparr>"

section \<open>Properties of the flattened list\<close>

lemma insert_by_compareNumber: "insert_by compareNumber x ys = insort_key number x ys"
  by (induction ys) (simp_all add: compareNumber_def)

lemma sort_by_compareNumber: "sort_by compareNumber xs = sort_key number xs"
  by (induction xs) (simp_all add: sort_by_def insert_by_compareNumber)

lemma flatten_sorted: "sorted (map number (flatten quiz))"
  by (simp add: flatten_def sort_by_compareNumber)

lemma flatten_mset: "mset (flatten quiz) = mset (flatMapped quiz)"
  by (simp add: flatten_def sort_by_compareNumber)

lemma flatten_stable:
  "filter (\<lambda>x. number x = k) (flatten quiz) = filter (\<lambda>x. number x = k) (flatMapped quiz)"
  by (simp add: flatten_def sort_by_compareNumber sort_key_stable)

lemma flatten_length: "length (flatten quiz) = length (flatMapped quiz)"
  by (simp add: flatten_def sort_by_compareNumber)

lemma flatMapped_no_questions:
  "(\<forall>c \<in> set (categories quiz). questions c = []) \<Longrightarrow> flatMapped quiz = []"
  by (simp add: flatMapped_def)

lemma flatten_no_questions:
  "(\<forall>c \<in> set (categories quiz). questions c = []) \<Longrightarrow> flatten quiz = []"
  by (simp add: flatten_def flatMapped_no_questions sort_by_def)

lemma questionsOf_None: "questionsOf quizBank None = []"
  by (simp add: questionsOf_def)

lemma questionsOf_absent: "quizBank i = None \<Longrightarrow> questionsOf quizBank (Some i) = []"
  by (simp add: questionsOf_def)

lemma questionsOf_present:
  "i \<noteq> [] \<Longrightarrow> quizBank i = Some quiz \<Longrightarrow> questionsOf quizBank (Some i) = flatten quiz"
  by (simp add: questionsOf_def truthy_def)

lemma questionsOf_sorted: "sorted (map number (questionsOf quizBank a))"
  by (simp add: questionsOf_def flatten_sorted split: option.splits)

lemma questionsOf_nonempty_truthy: "questionsOf quizBank a \<noteq> [] \<Longrightarrow> truthy a"
  by (auto simp: questionsOf_def split: option.splits if_splits)

section \<open>Invariants of the reachable sessions\<close>

lemma sessionInv_initial: "sessionInv quizBank (initial quizBank)"
  by (simp add: sessionInv_def initial_def)

lemma sessionInv_setActiveQuizId: "sessionInv quizBank s \<Longrightarrow> sessionInv quizBank (setActiveQuizId v s)"
  by (auto simp: sessionInv_def setActiveQuizId_def resetProgress_def)

lemma index_in_range_truthy:
  "i < length (questionsOf quizBank a) \<Longrightarrow> truthy a"
  by (rule questionsOf_nonempty_truthy [of quizBank]) auto

lemma questionPanel_iff:
  "questionPanel quizBank s \<longleftrightarrow>
     questionIndex s < length (questionsOf quizBank (activeQuizId s)) \<and> \<not> finished s"
  by (auto simp: questionPanel_def noQuestionsLoaded_def currentQuestion_def Let_def
      dest: index_in_range_truthy)

lemma sessionInv_selectChoice: "sessionInv quizBank s \<Longrightarrow> sessionInv quizBank (selectChoice quizBank key s)"
  by (auto simp: sessionInv_def selectChoice_def handleSelect_def questionPanel_def
      noQuestionsLoaded_def currentQuestion_def Let_def split: option.splits if_splits)

lemma sessionInv_submit: "sessionInv quizBank s \<Longrightarrow> sessionInv quizBank (submit quizBank s)"
  by (auto simp: sessionInv_def submit_def handleSubmit_def questionPanel_def readyToSubmit_def truthy_def
      noQuestionsLoaded_def currentQuestion_def Let_def split: option.splits if_splits)

lemma sessionInv_advance: "sessionInv quizBank s \<Longrightarrow> sessionInv quizBank (advance quizBank s)"
  by (auto simp: sessionInv_def advance_def handleNext_def questionPanel_def
      noQuestionsLoaded_def currentQuestion_def Let_def split: option.splits if_splits)

lemma sessionInv_replay: "sessionInv quizBank s \<Longrightarrow> sessionInv quizBank (replay s)"
  by (auto simp: sessionInv_def replay_def replayClick_def)

lemma sessionInv_exitQuiz: "sessionInv quizBank s \<Longrightarrow> sessionInv quizBank (exitQuiz s)"
  by (simp add: exitQuiz_def sessionInv_setActiveQuizId)

lemma sessionInv_step: "sessionInv quizBank s \<Longrightarrow> sessionInv quizBank (step quizBank e s)"
  by (cases e)
    (simp_all add: selectQuiz_def sessionInv_setActiveQuizId sessionInv_selectChoice
      sessionInv_submit sessionInv_advance sessionInv_replay sessionInv_exitQuiz)

lemma reachable_sessionInv: "reachable quizBank s \<Longrightarrow> sessionInv quizBank s"
  by (induction rule: reachable.induct) (simp_all add: sessionInv_initial sessionInv_step)

section \<open>The concrete runs\<close>

lemma flatten_quizA: "flatten quizA = [enrichedOne, enrichedTwo]"
  by (simp add: flatten_def flatMapped_def quizA_def sort_by_def compareNumber_def
      enrichedOne_def enrichedTwo_def enrich_def questionOne_def questionTwo_def)

lemma flatten_quizB: "flatten quizB = [enrichedBlank]"
  by (simp add: flatten_def flatMapped_def quizB_def sort_by_def enrichedBlank_def)

lemma questions_quiz1: "questionsOf exampleBank (Some ''quiz1'') = [enrichedOne, enrichedTwo]"
  by (simp add: questionsOf_def truthy_def exampleBank_def flatten_quizA)

lemma questions_quiz2: "questionsOf exampleBank (Some ''quiz2'') = [enrichedBlank]"
  by (simp add: questionsOf_def truthy_def exampleBank_def flatten_quizB)

lemma questions_quiz3: "questionsOf exampleBank (Some ''quiz3'') = []"
  by (simp add: questionsOf_def truthy_def exampleBank_def)

lemma initial_exampleBank:
  "initial exampleBank = \<lparr>activeQuizId = Some ''quiz1'', questionIndex = 0,
     selectedChoice = None, finished = False, submitted = False\<rparr>"
  by (simp add: initial_def exampleBank_def)

lemmas example_simps = initial_exampleBank questions_quiz1 questions_quiz2 questions_quiz3
  selectQuiz_def setActiveQuizId_def resetProgress_def selectChoice_def submit_def advance_def
  replay_def exitQuiz_def replayClick_def handleSelect_def handleSubmit_def handleNext_def
  questionPanel_def noQuestionsLoaded_def readyToSubmit_def currentQuestion_def truthy_def
  enrichedOne_def enrichedTwo_def enrichedBlank_def enrich_def questionOne_def questionTwo_def questionBlank_def

lemma run_mid:
  "run exampleBank [SelectChoice ''B'', Submit, Advance, SelectChoice ''B'', Submit]
     (initial exampleBank) =
   \<lparr>activeQuizId = Some ''quiz1'', questionIndex = 1, selectedChoice = Some ''B'',
    finished = False, submitted = True\<rparr>"
  by (simp add: example_simps)

lemma run_fin:
  "run exampleBank [SelectChoice ''B'', Submit, Advance, SelectChoice ''B'', Submit, Advance]
     (initial exampleBank) =
   \<lparr>activeQuizId = Some ''quiz1'', questionIndex = 1, selectedChoice = Some ''B'',
    finished = True, submitted = True\<rparr>"
  by (simp add: example_simps)

lemma reachable_run: "reachable quizBank s \<Longrightarrow> reachable quizBank (run quizBank es s)"
  by (induction es arbitrary: s) (simp_all add: after_step)

lemma reachable_run_initial: "reachable quizBank (run quizBank es (initial quizBank))"
  by (simp add: reachable_run at_mount)

lemma midSession_reachable: "reachable exampleBank midSession"
  using reachable_run_initial
    [of exampleBank "[SelectChoice ''B'', Submit, Advance, SelectChoice ''B'', Submit]"]
  by (simp only: run_mid midSession_def)

lemma run_finishedSession:
  "run exampleBank [SelectChoice ''B'', Submit, Advance, SelectChoice ''B'', Submit, Advance]
     (initial exampleBank) = finishedSession"
  by (simp only: run_fin finishedSession_def)

lemma run_blankSession:
  "run exampleBank [SelectQuiz ''quiz2''] (initial exampleBank) = blankSession"
  by (simp add: example_simps blankSession_def)

lemma run_blankPicked:
  "run exampleBank [SelectQuiz ''quiz2'', SelectChoice []] (initial exampleBank) = blankPicked"
  by (simp add: example_simps blankPicked_def)

lemma blankPicked_reachable: "reachable exampleBank blankPicked"
  using reachable_run_initial [of exampleBank "[SelectQuiz ''quiz2'', SelectChoice []]"]
  by (simp only: run_blankPicked)

lemma finishedSession_reachable: "reachable exampleBank finishedSession"
  using reachable_run_initial
    [of exampleBank "[SelectChoice ''B'', Submit, Advance, SelectChoice ''B'', Submit, Advance]"]
  by (simp only: run_finishedSession)

lemma replay_finishedSession:
  "replay finishedSession =
     \<lparr>activeQuizId = Some ''quiz1'', questionIndex = 0, selectedChoice = None,
      finished = False, submitted = True\<rparr>"
  by (simp add: finishedSession_def replay_def replayClick_def)

lemma replay_finishedSession_reachable: "reachable exampleBank (replay finishedSession)"
  using after_step [OF finishedSession_reachable, of Replay] by simp

section \<open>The claims\<close>

subsection \<open>C1: the flattened list\<close>

lemma enrich_fields:
  "ecategory (enrich c q) = category c \<and> number (enrich c q) = number q \<and>
   question (enrich c q) = question q \<and> choices (enrich c q) = choices q \<and>
   correct_answer (enrich c q) = correct_answer q \<and> why_correct (enrich c q) = why_correct q \<and>
   why_incorrect (enrich c q) = why_incorrect q"
  by (simp add: enrich_def)

lemma set_flatten:
  "set (flatten quiz) = (\<Union>c \<in> set (categories quiz). enrich c ` set (questions c))"
proof -
  have "set (flatten quiz) = set (flatMapped quiz)"
    using flatten_mset [of quiz] by (metis set_mset_mset)
  then show ?thesis by (simp add: flatMapped_def)
qed

lemma flatten_elements_annotated:
  "\<forall>x \<in> set (flatten quiz). \<exists>c \<in> set (categories quiz). \<exists>q \<in> set (questions c).
     ecategory x = category c \<and> number x = number q \<and> question x = question q \<and>
     choices x = choices q \<and> correct_answer x = correct_answer q \<and>
     why_correct x = why_correct q \<and> why_incorrect x = why_incorrect q"
proof
  fix x assume "x \<in> set (flatten quiz)"
  then obtain c q where "c \<in> set (categories quiz)" "q \<in> set (questions c)" "x = enrich c q"
    by (auto simp: set_flatten)
  then show "\<exists>c \<in> set (categories quiz). \<exists>q \<in> set (questions c).
     ecategory x = category c \<and> number x = number q \<and> question x = question q \<and>
     choices x = choices q \<and> correct_answer x = correct_answer q \<and>
     why_correct x = why_correct q \<and> why_incorrect x = why_incorrect q"
    using enrich_fields [of c q] by blast
qed

lemma flatten_covers_questions:
  "\<forall>c \<in> set (categories quiz). \<forall>q \<in> set (questions c). \<exists>x \<in> set (flatten quiz).
     ecategory x = category c \<and> number x = number q \<and> question x = question q \<and>
     choices x = choices q \<and> correct_answer x = correct_answer q \<and>
     why_correct x = why_correct q \<and> why_incorrect x = why_incorrect q"
proof (intro ballI)
  fix c q assume "c \<in> set (categories quiz)" "q \<in> set (questions c)"
  then have "enrich c q \<in> set (flatten quiz)" by (auto simp: set_flatten)
  then show "\<exists>x \<in> set (flatten quiz).
     ecategory x = category c \<and> number x = number q \<and> question x = question q \<and>
     choices x = choices q \<and> correct_answer x = correct_answer q \<and>
     why_correct x = why_correct q \<and> why_incorrect x = why_incorrect q"
    using enrich_fields [of c q] by blast
qed

text \<open>
  Claim C1. For every quiz, flattening returns the questions of all its categories, each
  annotated with the name of its category: the annotated question \<open>enrich c q\<close> has the
  fields of \<open>q\<close> and \<open>category c\<close> as its \<open>ecategory\<close>, the result is the same multiset
  as the concatenation of the annotated questions, every element of the result carries
  the name of a category of the quiz and the fields of one of that category's questions,
  and every question of every category occurs so annotated. The result is sorted
  ascending by \<open>number\<close>, questions of equal number staying in the order of the
  concatenation; the list derived from any \<open>activeQuizId\<close> is sorted. A quiz without
  categories, or whose categories have no questions, flattens to the empty list, and so
  does an identifier absent from the bank or no identifier. The list is a function of the
  quiz alone: two lookups that find the same quiz give the same list. The lookup is by a
  non-empty identifier: the guard \<open>!activeQuizId\<close> reads the empty string as no quiz,
  and the component stores only \<open>null\<close> and the identifiers of \<open>quizOrder\<close>.
\<close>

theorem C1_flatten_sorted_concatenation:
  "sorted (map number (flatten quiz)) \<and>
   mset (flatten quiz) =
     mset (concat (map (\<lambda>c. map (enrich c) (questions c)) (categories quiz))) \<and>
   (ecategory (enrich c q) = category c \<and> number (enrich c q) = number q \<and>
    question (enrich c q) = question q \<and> choices (enrich c q) = choices q \<and>
    correct_answer (enrich c q) = correct_answer q \<and> why_correct (enrich c q) = why_correct q \<and>
    why_incorrect (enrich c q) = why_incorrect q) \<and>
   (\<forall>x \<in> set (flatten quiz). \<exists>c \<in> set (categories quiz). \<exists>q \<in> set (questions c).
      ecategory x = category c \<and> number x = number q \<and> question x = question q \<and>
      choices x = choices q \<and> correct_answer x = correct_answer q \<and>
      why_correct x = why_correct q \<and> why_incorrect x = why_incorrect q) \<and>
   (\<forall>c \<in> set (categories quiz). \<forall>q \<in> set (questions c). \<exists>x \<in> set (flatten quiz).
      ecategory x = category c \<and> number x = number q \<and> question x = question q \<and>
      choices x = choices q \<and> correct_answer x = correct_answer q \<and>
      why_correct x = why_correct q \<and> why_incorrect x = why_incorrect q) \<and>
   (\<forall>k. filter (\<lambda>x. number x = k) (flatten quiz) =
        filter (\<lambda>x. number x = k)
          (concat (map (\<lambda>c. map (enrich c) (questions c)) (categories quiz)))) \<and>
   (categories quiz = [] \<longrightarrow> flatten quiz = []) \<and>
   ((\<forall>c \<in> set (categories quiz). questions c = []) \<longrightarrow> flatten quiz = []) \<and>
   sorted (map number (questionsOf quizBank a)) \<and>
   questionsOf quizBank None = [] \<and>
   (quizBank i = None \<longrightarrow> questionsOf quizBank (Some i) = []) \<and>
   (i \<noteq> [] \<and> quizBank i = Some quiz \<longrightarrow> questionsOf quizBank (Some i) = flatten quiz) \<and>
   (i \<noteq> [] \<and> j \<noteq> [] \<and> quizBank i = Some quiz \<and> otherBank j = Some quiz \<longrightarrow>
      questionsOf quizBank (Some i) = questionsOf otherBank (Some j))"
proof -
  have perm: "mset (flatten quiz) =
      mset (concat (map (\<lambda>c. map (enrich c) (questions c)) (categories quiz)))"
    using flatten_mset [of quiz] by (simp add: flatMapped_def)
  have stable: "\<forall>k. filter (\<lambda>x. number x = k) (flatten quiz) =
        filter (\<lambda>x. number x = k)
          (concat (map (\<lambda>c. map (enrich c) (questions c)) (categories quiz)))"
    using flatten_stable [of _ quiz] by (simp add: flatMapped_def)
  have no_cat: "categories quiz = [] \<longrightarrow> flatten quiz = []"
    by (simp add: flatten_no_questions)
  have no_q: "(\<forall>c \<in> set (categories quiz). questions c = []) \<longrightarrow> flatten quiz = []"
    by (simp add: flatten_no_questions)
  have same: "i \<noteq> [] \<and> j \<noteq> [] \<and> quizBank i = Some quiz \<and> otherBank j = Some quiz \<longrightarrow>
      questionsOf quizBank (Some i) = questionsOf otherBank (Some j)"
    by (simp add: questionsOf_present)
  have absent: "quizBank i = None \<longrightarrow> questionsOf quizBank (Some i) = []"
    by (simp add: questionsOf_absent)
  have present: "i \<noteq> [] \<and> quizBank i = Some quiz \<longrightarrow>
      questionsOf quizBank (Some i) = flatten quiz"
    by (simp add: questionsOf_present)
  show ?thesis
    by (rule conjI [OF flatten_sorted conjI [OF perm conjI [OF enrich_fields
      conjI [OF flatten_elements_annotated conjI [OF flatten_covers_questions
      conjI [OF stable conjI [OF no_cat conjI [OF no_q conjI [OF questionsOf_sorted
      conjI [OF questionsOf_None conjI [OF absent conjI [OF present same]]]]]]]]]]]])
qed

text \<open>
  Witness for C1: quiz 1 of the example bank lists number 2 before number 1 and flattens
  to numbers 1, 2, both annotated with its category ``Basics''; the one question of quiz 2
  is annotated with its category ``Edge''; quiz 3 is absent; a quiz without categories
  and a quiz with one empty category flatten to the empty list; the same quiz stored
  under another identifier of another bank gives the same list.
\<close>

theorem C1_flatten_witness:
  "exampleBank ''quiz1'' = Some quizA \<and>
   map number (questionsOf exampleBank (Some ''quiz1'')) = [1, 2] \<and>
   map ecategory (questionsOf exampleBank (Some ''quiz1'')) = [''Basics'', ''Basics''] \<and>
   sorted (map number (flatten quizA)) \<and>
   questionsOf exampleBank (Some ''quiz1'') = flatten quizA \<and>
   enrichedBlank \<in> set (flatten quizB) \<and>
   ecategory enrichedBlank = ''Edge'' \<and> number enrichedBlank = 7 \<and>
   exampleBank ''quiz3'' = None \<and>
   questionsOf exampleBank (Some ''quiz3'') = [] \<and>
   flatten \<lparr>categories = []\<rparr> = [] \<and>
   flatten \<lparr>categories = [\<lparr>category = ''Empty'', questions = []\<rparr>]\<rparr> = [] \<and>
   questionsOf exampleBank (Some ''quiz1'') = questionsOf [''quiz2'' \<mapsto> quizA] (Some ''quiz2'')"
proof -
  have present: "''quiz1'' \<noteq> [] \<and> exampleBank ''quiz1'' = Some quizA"
    by (simp add: exampleBank_def)
  have absent: "exampleBank ''quiz3'' = None"
    by (simp add: exampleBank_def)
  have other: "''quiz2'' \<noteq> [] \<and> [''quiz2'' \<mapsto> quizA] ''quiz2'' = Some quizA"
    by simp
  have no_cat: "categories \<lparr>categories = []\<rparr> = []"
    by simp
  have no_q: "\<forall>c \<in> set (categories \<lparr>categories = [\<lparr>category = ''Empty'', questions = []\<rparr>]\<rparr>).
      questions c = []"
    by simp
  have member: "enrichedBlank \<in> set (flatten quizB)"
    by (simp add: flatten_quizB)
  have cats_B: "set (categories quizB) = {\<lparr>category = ''Edge'', questions = [questionBlank]\<rparr>}"
    by (simp add: quizB_def)
  note at1 = C1_flatten_sorted_concatenation
    [where quiz = quizA and quizBank = exampleBank and i = "''quiz1''"
      and otherBank = "[''quiz2'' \<mapsto> quizA]" and j = "''quiz2''"
      and c = "\<lparr>category = ''Edge'', questions = [questionBlank]\<rparr>" and q = questionBlank
      and a = None]
  note at2 = C1_flatten_sorted_concatenation
    [where quiz = quizB and quizBank = exampleBank and i = "''quiz2''"
      and otherBank = exampleBank and j = "''quiz2''"
      and c = "\<lparr>category = ''Edge'', questions = [questionBlank]\<rparr>" and q = questionBlank
      and a = None]
  note at3 = C1_flatten_sorted_concatenation
    [where quiz = quizA and quizBank = exampleBank and i = "''quiz3''"
      and otherBank = exampleBank and j = "''quiz3''"
      and c = "\<lparr>category = ''Edge'', questions = [questionBlank]\<rparr>" and q = questionBlank
      and a = None]
  note atE = C1_flatten_sorted_concatenation
    [where quiz = "\<lparr>categories = []\<rparr>" and quizBank = exampleBank and i = "''quiz3''"
      and otherBank = exampleBank and j = "''quiz3''"
      and c = "\<lparr>category = ''Edge'', questions = [questionBlank]\<rparr>" and q = questionBlank
      and a = None]
  note atQ = C1_flatten_sorted_concatenation
    [where quiz = "\<lparr>categories = [\<lparr>category = ''Empty'', questions = []\<rparr>]\<rparr>"
      and quizBank = exampleBank and i = "''quiz3''"
      and otherBank = exampleBank and j = "''quiz3''"
      and c = "\<lparr>category = ''Edge'', questions = [questionBlank]\<rparr>" and q = questionBlank
      and a = None]
  have nums: "map number (questionsOf exampleBank (Some ''quiz1'')) = [1, 2]"
    by (simp add: questions_quiz1 enrichedOne_def enrichedTwo_def enrich_def
        questionOne_def questionTwo_def)
  have cats: "map ecategory (questionsOf exampleBank (Some ''quiz1'')) = [''Basics'', ''Basics'']"
    by (simp add: questions_quiz1 enrichedOne_def enrichedTwo_def enrich_def)
  from at1 have "''quiz1'' \<noteq> [] \<and> exampleBank ''quiz1'' = Some quizA \<longrightarrow>
      questionsOf exampleBank (Some ''quiz1'') = flatten quizA"
    by - (elim conjE, assumption)
  with present have a: "questionsOf exampleBank (Some ''quiz1'') = flatten quizA" by (rule rev_mp)
  from at1 have b: "sorted (map number (flatten quizA))" by - (elim conjE, assumption)
  from at2 have "\<forall>x \<in> set (flatten quizB). \<exists>c \<in> set (categories quizB). \<exists>q \<in> set (questions c).
      ecategory x = category c \<and> number x = number q \<and> question x = question q \<and>
      choices x = choices q \<and> correct_answer x = correct_answer q \<and>
      why_correct x = why_correct q \<and> why_incorrect x = why_incorrect q"
    by - (elim conjE, assumption)
  from this member have "\<exists>c \<in> set (categories quizB). \<exists>q \<in> set (questions c).
      ecategory enrichedBlank = category c \<and> number enrichedBlank = number q \<and>
      question enrichedBlank = question q \<and>
      choices enrichedBlank = choices q \<and> correct_answer enrichedBlank = correct_answer q \<and>
      why_correct enrichedBlank = why_correct q \<and> why_incorrect enrichedBlank = why_incorrect q"
    by (rule bspec)
  then have g: "ecategory enrichedBlank = ''Edge'' \<and> number enrichedBlank = 7"
    by (simp add: cats_B questionBlank_def)
  from at3 have "exampleBank ''quiz3'' = None \<longrightarrow> questionsOf exampleBank (Some ''quiz3'') = []"
    by - (elim conjE, assumption)
  with absent have c: "questionsOf exampleBank (Some ''quiz3'') = []" by (rule rev_mp)
  from atE have "categories \<lparr>categories = []\<rparr> = [] \<longrightarrow> flatten \<lparr>categories = []\<rparr> = []"
    by - (elim conjE, assumption)
  with no_cat have d: "flatten \<lparr>categories = []\<rparr> = []" by (rule rev_mp)
  from atQ
  have "(\<forall>c \<in> set (categories \<lparr>categories = [\<lparr>category = ''Empty'', questions = []\<rparr>]\<rparr>).
      questions c = []) \<longrightarrow>
    flatten \<lparr>categories = [\<lparr>category = ''Empty'', questions = []\<rparr>]\<rparr> = []"
    by - (elim conjE, assumption)
  with no_q
  have e: "flatten \<lparr>categories = [\<lparr>category = ''Empty'', questions = []\<rparr>]\<rparr> = []"
    by (rule rev_mp)
  from at1 have "''quiz1'' \<noteq> [] \<and> ''quiz2'' \<noteq> [] \<and> exampleBank ''quiz1'' = Some quizA \<and>
      [''quiz2'' \<mapsto> quizA] ''quiz2'' = Some quizA \<longrightarrow>
      questionsOf exampleBank (Some ''quiz1'') =
      questionsOf [''quiz2'' \<mapsto> quizA] (Some ''quiz2'')"
    by - (elim conjE, assumption)
  with present other
  have f: "questionsOf exampleBank (Some ''quiz1'') =
      questionsOf [''quiz2'' \<mapsto> quizA] (Some ''quiz2'')"
    by blast
  from present have p: "exampleBank ''quiz1'' = Some quizA" by (rule conjunct2)
  from g have g1: "ecategory enrichedBlank = ''Edge''" and g2: "number enrichedBlank = 7"
    by (rule conjunct1, rule conjunct2)
  show ?thesis
    by (rule conjI [OF p conjI [OF nums conjI [OF cats conjI [OF b conjI [OF a
      conjI [OF member conjI [OF g1 conjI [OF g2 conjI [OF absent conjI [OF c
      conjI [OF d conjI [OF e f]]]]]]]]]]]])
qed

subsection \<open>C2: selecting a quiz\<close>

text \<open>
  Counterexample to C2 as stated: selecting the quiz that is already active stores the
  same identifier, the effect does not run, and the session in the middle of quiz 1
  (reached by answering, submitting and advancing) keeps its position 1, its selection
  and its submission.
\<close>

theorem C2_selectQuiz_same_quiz_counterexample:
  "reachable exampleBank midSession \<and>
   \<not> (questionIndex (selectQuiz ''quiz1'' midSession) = 0 \<and>
      selectedChoice (selectQuiz ''quiz1'' midSession) = None \<and>
      submitted (selectQuiz ''quiz1'' midSession) = False \<and>
      finished (selectQuiz ''quiz1'' midSession) = False)"
  using midSession_reachable
  by (simp add: selectQuiz_def setActiveQuizId_def midSession_def)

text \<open>
  Claim C2, amended. For every prior session and every quiz identifier other than the
  active one, \<open>selectQuiz\<close> stores the identifier and resets the position to 0, the
  selection to absent, and \<open>submitted\<close> and \<open>finished\<close> to false; selecting the
  active identifier again leaves the session unchanged. In both cases the question list
  is the one derived from the selected identifier.
\<close>

theorem C2_selectQuiz_resets_on_change:
  "(activeQuizId s \<noteq> Some quizId \<longrightarrow>
      selectQuiz quizId s =
        \<lparr>activeQuizId = Some quizId, questionIndex = 0, selectedChoice = None,
         finished = False, submitted = False\<rparr>) \<and>
   (activeQuizId s = Some quizId \<longrightarrow> selectQuiz quizId s = s) \<and>
   questionsOf quizBank (activeQuizId (selectQuiz quizId s)) = questionsOf quizBank (Some quizId)"
  by (simp add: selectQuiz_def setActiveQuizId_def resetProgress_def)

text \<open>
  Witness for C2: from the session in the middle of quiz 1, selecting the absent quiz 3
  resets everything and gives the empty list; selecting quiz 1 changes nothing.
\<close>

theorem C2_selectQuiz_witness:
  "activeQuizId midSession \<noteq> Some ''quiz3'' \<and>
   selectQuiz ''quiz3'' midSession =
     \<lparr>activeQuizId = Some ''quiz3'', questionIndex = 0, selectedChoice = None,
      finished = False, submitted = False\<rparr> \<and>
   questionsOf exampleBank (activeQuizId (selectQuiz ''quiz3'' midSession)) = [] \<and>
   activeQuizId midSession = Some ''quiz1'' \<and>
   selectQuiz ''quiz1'' midSession = midSession"
proof -
  have differs: "activeQuizId midSession \<noteq> Some ''quiz3''"
    by (simp add: midSession_def)
  have same: "activeQuizId midSession = Some ''quiz1''"
    by (simp add: midSession_def)
  note at3 = C2_selectQuiz_resets_on_change [of midSession "''quiz3''" exampleBank]
  note at1 = C2_selectQuiz_resets_on_change [of midSession "''quiz1''" exampleBank]
  from at3 differs have "selectQuiz ''quiz3'' midSession =
     \<lparr>activeQuizId = Some ''quiz3'', questionIndex = 0, selectedChoice = None,
      finished = False, submitted = False\<rparr>" by blast
  moreover from at3 have
    "questionsOf exampleBank (activeQuizId (selectQuiz ''quiz3'' midSession)) = []"
    by (simp add: questions_quiz3)
  moreover from at1 same have "selectQuiz ''quiz1'' midSession = midSession" by blast
  ultimately show ?thesis using differs same by simp
qed

subsection \<open>C3: advancing needs a submission\<close>

text \<open>
  Claim C3. For every session, \<open>advance\<close> leaves the whole session unchanged unless
  \<open>submitted\<close> is true: the Next button is rendered only while \<open>submitted\<close>.
\<close>

theorem C3_advance_requires_submitted:
  "\<not> submitted s \<Longrightarrow> advance quizBank s = s"
  by (simp add: advance_def)

text \<open>
  Witness for C3: the session at mount is not submitted, and advancing leaves it as it is.
\<close>

theorem C3_advance_witness:
  "\<not> submitted (initial exampleBank) \<and>
   advance exampleBank (initial exampleBank) = initial exampleBank"
proof -
  have h: "\<not> submitted (initial exampleBank)"
    by (simp add: initial_def)
  from C3_advance_requires_submitted [OF h, of exampleBank] h show ?thesis by simp
qed

text \<open>
  The guard is the rendering condition of the Next button, not the handler: run
  directly on the unsubmitted session at mount, \<open>handleNext\<close> moves to the next
  question.
\<close>

lemma handleNext_alone_moves_on:
  "handleNext exampleBank (initial exampleBank) =
     \<lparr>activeQuizId = Some ''quiz1'', questionIndex = 1, selectedChoice = None,
      finished = False, submitted = False\<rparr>"
  by (simp add: handleNext_def initial_exampleBank questions_quiz1)

subsection \<open>C4: advancing moves on or finishes\<close>

lemma advance_in_panel:
  assumes "questionIndex s < length (questionsOf quizBank (activeQuizId s))"
    and "\<not> finished s" and "submitted s"
  shows "advance quizBank s =
      (if Suc (questionIndex s) = length (questionsOf quizBank (activeQuizId s))
       then s\<lparr>finished := True\<rparr>
       else s\<lparr>questionIndex := questionIndex s + 1, selectedChoice := None, submitted := False\<rparr>)"
proof -
  have "questionPanel quizBank s"
    using assms by (simp add: questionPanel_iff)
  then have "advance quizBank s = handleNext quizBank s"
    using assms by (simp add: advance_def)
  moreover have "int (questionIndex s) < int (length (questionsOf quizBank (activeQuizId s))) - 1
      \<longleftrightarrow> Suc (questionIndex s) \<noteq> length (questionsOf quizBank (activeQuizId s))"
    using assms(1) by linarith
  ultimately show ?thesis by (simp add: handleNext_def)
qed

lemma advance_when_finished: "finished s \<Longrightarrow> advance quizBank s = s"
  by (simp add: advance_def questionPanel_def)

text \<open>
  Claim C4. For every session in which \<open>advance\<close> is valid (submitted, with a current
  question on display, or any reachable submitted session) the question list is not
  empty; if the position is not the last index, \<open>advance\<close> increments it and resets
  the selection to absent and \<open>submitted\<close> to false; if it is the last index,
  \<open>advance\<close> sets \<open>finished\<close> and leaves the position (and everything else) as it is.
\<close>

theorem C4_advance_moves_or_finishes:
  assumes "submitted s"
    and "(\<not> finished s \<and> currentQuestion quizBank s \<noteq> None) \<or> reachable quizBank s"
  shows "questionsOf quizBank (activeQuizId s) \<noteq> [] \<and>
     (Suc (questionIndex s) \<noteq> length (questionsOf quizBank (activeQuizId s)) \<longrightarrow>
        advance quizBank s =
          s\<lparr>questionIndex := questionIndex s + 1, selectedChoice := None, submitted := False\<rparr>) \<and>
     (Suc (questionIndex s) = length (questionsOf quizBank (activeQuizId s)) \<longrightarrow>
        advance quizBank s = s\<lparr>finished := True\<rparr> \<and>
        questionIndex (advance quizBank s) = questionIndex s)"
proof -
  have range: "questionIndex s < length (questionsOf quizBank (activeQuizId s))"
    and last: "finished s \<longrightarrow>
      Suc (questionIndex s) = length (questionsOf quizBank (activeQuizId s))"
  proof -
    from assms(2) show "questionIndex s < length (questionsOf quizBank (activeQuizId s))"
    proof
      assume "\<not> finished s \<and> currentQuestion quizBank s \<noteq> None"
      then show ?thesis
        by (simp add: currentQuestion_def Let_def split: if_splits)
    next
      assume "reachable quizBank s"
      then have "sessionInv quizBank s" by (rule reachable_sessionInv)
      with assms(1) show ?thesis by (simp add: sessionInv_def)
    qed
    from assms(2) show "finished s \<longrightarrow>
      Suc (questionIndex s) = length (questionsOf quizBank (activeQuizId s))"
    proof
      assume "\<not> finished s \<and> currentQuestion quizBank s \<noteq> None"
      then show ?thesis by simp
    next
      assume "reachable quizBank s"
      then have "sessionInv quizBank s" by (rule reachable_sessionInv)
      then show ?thesis by (simp add: sessionInv_def)
    qed
  qed
  from range have nonempty: "questionsOf quizBank (activeQuizId s) \<noteq> []" by auto
  show ?thesis
  proof (cases "finished s")
    case True
    with last have "Suc (questionIndex s) = length (questionsOf quizBank (activeQuizId s))"
      by simp
    moreover from True have "advance quizBank s = s\<lparr>finished := True\<rparr>"
      by (simp add: advance_when_finished)
    ultimately show ?thesis using nonempty by simp
  next
    case False
    with range assms(1) show ?thesis
      using nonempty by (simp add: advance_in_panel)
  qed
qed

lemma currentQuestion_mid: "currentQuestion exampleBank midSession = Some enrichedTwo"
  by (simp add: currentQuestion_def midSession_def questions_quiz1)

lemma run_firstSubmitted:
  "run exampleBank [SelectChoice ''B'', Submit] (initial exampleBank) = firstSubmitted"
  by (simp add: example_simps firstSubmitted_def)

lemma firstSubmitted_reachable: "reachable exampleBank firstSubmitted"
  using reachable_run_initial [of exampleBank "[SelectChoice ''B'', Submit]"]
  by (simp only: run_firstSubmitted)

text \<open>
  Witness for C4: from the first question of quiz 1, submitted, \<open>advance\<close> moves to
  position 1 and clears the answer; from the second, last question it sets \<open>finished\<close>
  and stays at position 1.
\<close>

theorem C4_advance_witness:
  "submitted firstSubmitted \<and> reachable exampleBank firstSubmitted \<and>
   advance exampleBank firstSubmitted =
     \<lparr>activeQuizId = Some ''quiz1'', questionIndex = 1, selectedChoice = None,
      finished = False, submitted = False\<rparr> \<and>
   submitted midSession \<and> \<not> finished midSession \<and>
   currentQuestion exampleBank midSession \<noteq> None \<and>
   advance exampleBank midSession =
     \<lparr>activeQuizId = Some ''quiz1'', questionIndex = 1, selectedChoice = Some ''B'',
      finished = True, submitted = True\<rparr>"
proof -
  have s1: "submitted firstSubmitted" by (simp add: firstSubmitted_def)
  have r1: "reachable exampleBank firstSubmitted" by (rule firstSubmitted_reachable)
  have s2: "submitted midSession" by (simp add: midSession_def)
  have p2: "\<not> finished midSession \<and> currentQuestion exampleBank midSession \<noteq> None"
    by (simp add: currentQuestion_mid) (simp add: midSession_def)
  have n1: "Suc (questionIndex firstSubmitted) \<noteq>
      length (questionsOf exampleBank (activeQuizId firstSubmitted))"
    by (simp add: firstSubmitted_def questions_quiz1)
  have n2: "Suc (questionIndex midSession) =
      length (questionsOf exampleBank (activeQuizId midSession))"
    by (simp add: midSession_def questions_quiz1)
  from C4_advance_moves_or_finishes [of firstSubmitted exampleBank] s1 r1 n1
  have "advance exampleBank firstSubmitted =
      firstSubmitted\<lparr>questionIndex := questionIndex firstSubmitted + 1,
        selectedChoice := None, submitted := False\<rparr>"
    by blast
  then have a1: "advance exampleBank firstSubmitted =
     \<lparr>activeQuizId = Some ''quiz1'', questionIndex = 1, selectedChoice = None,
      finished = False, submitted = False\<rparr>"
    by (simp add: firstSubmitted_def)
  from C4_advance_moves_or_finishes [of midSession exampleBank] s2 p2 n2
  have "advance exampleBank midSession = midSession\<lparr>finished := True\<rparr>"
    by blast
  then have a2: "advance exampleBank midSession =
     \<lparr>activeQuizId = Some ''quiz1'', questionIndex = 1, selectedChoice = Some ''B'',
      finished = True, submitted = True\<rparr>"
    by (simp add: midSession_def)
  from s1 r1 a1 s2 p2 a2 show ?thesis by simp
qed

subsection \<open>C5: a session without questions\<close>

lemma no_panel_on_empty:
  "questionsOf quizBank (activeQuizId s) = [] \<Longrightarrow> \<not> questionPanel quizBank s"
  by (simp add: questionPanel_iff)

lemma step_keeps_unfinished_on_empty:
  assumes "questionsOf quizBank (activeQuizId s) = []" and "\<not> finished s"
  shows "\<not> finished (step quizBank e s)"
proof (cases e)
  case (SelectQuiz quizId)
  with assms(2) show ?thesis
    by (simp add: selectQuiz_def setActiveQuizId_def resetProgress_def)
next
  case (SelectChoice key)
  with assms show ?thesis
    by (simp add: selectChoice_def no_panel_on_empty split: option.splits)
next
  case Submit
  with assms show ?thesis by (simp add: submit_def no_panel_on_empty)
next
  case Advance
  with assms show ?thesis by (simp add: advance_def no_panel_on_empty)
next
  case Replay
  with assms(2) show ?thesis by (simp add: replay_def)
next
  case ExitQuiz
  with assms(2) show ?thesis by (simp add: exitQuiz_def)
qed

lemma run_keeps_unfinished_on_empty:
  "questionsOf quizBank (activeQuizId s) = [] \<Longrightarrow> \<not> finished s \<Longrightarrow>
   keepsEmpty quizBank es s \<Longrightarrow> \<not> finished (run quizBank es s)"
proof (induction es arbitrary: s)
  case Nil
  then show ?case by simp
next
  case (Cons e es)
  from Cons.prems(1,2) have "\<not> finished (step quizBank e s)"
    by (rule step_keeps_unfinished_on_empty)
  moreover from Cons.prems(3)
  have "questionsOf quizBank (activeQuizId (step quizBank e s)) = []"
    and "keepsEmpty quizBank es (step quizBank e s)"
    by simp_all
  ultimately show ?case using Cons.IH by simp
qed

text \<open>
  Claim C5. For every session whose question list is empty, \<open>submit\<close> and \<open>advance\<close>
  leave the session as it is, and a session that is not finished stays not finished
  through every sequence of operations that keeps the list empty.
\<close>

theorem C5_empty_list_noops:
  assumes "questionsOf quizBank (activeQuizId s) = []"
  shows "submit quizBank s = s \<and> advance quizBank s = s \<and>
     (\<not> finished s \<and> keepsEmpty quizBank es s \<longrightarrow> \<not> finished (run quizBank es s))"
  using assms
  by (simp add: submit_def advance_def no_panel_on_empty run_keeps_unfinished_on_empty)

lemma run_emptySession:
  "run exampleBank [SelectQuiz ''quiz3''] (initial exampleBank) = emptySession"
  by (simp add: example_simps emptySession_def)

lemma emptySession_steps:
  "selectChoice exampleBank ''A'' emptySession = emptySession"
  "submit exampleBank emptySession = emptySession"
  "advance exampleBank emptySession = emptySession"
  "replay emptySession = emptySession"
  by (simp_all add: example_simps emptySession_def)

text \<open>
  Witness for C5: on the absent quiz 3 the list is empty, \<open>submit\<close> and \<open>advance\<close>
  change nothing, and the run select, submit, advance, replay, advance keeps the list
  empty and ends not finished.
\<close>

theorem C5_empty_list_witness:
  "questionsOf exampleBank (activeQuizId emptySession) = [] \<and>
   \<not> finished emptySession \<and>
   keepsEmpty exampleBank [SelectChoice ''A'', Submit, Advance, Replay, Advance] emptySession \<and>
   submit exampleBank emptySession = emptySession \<and>
   advance exampleBank emptySession = emptySession \<and>
   \<not> finished (run exampleBank [SelectChoice ''A'', Submit, Advance, Replay, Advance] emptySession)"
proof -
  have e: "questionsOf exampleBank (activeQuizId emptySession) = []"
    by (simp add: emptySession_def questions_quiz3)
  have f: "\<not> finished emptySession" by (simp add: emptySession_def)
  have k: "keepsEmpty exampleBank [SelectChoice ''A'', Submit, Advance, Replay, Advance] emptySession"
    by (simp add: emptySession_steps e)
  from C5_empty_list_noops [OF e, of "[SelectChoice ''A'', Submit, Advance, Replay, Advance]"] e f k
  show ?thesis by blast
qed

text \<open>
  Here too the guard is the rendering: the handler alone, run on the session without
  questions, compares 0 with \<open>questions.length - 1 = -1\<close> and sets \<open>finished\<close>.
\<close>

lemma handleNext_alone_finishes_empty:
  "handleNext exampleBank emptySession = emptySession\<lparr>finished := True\<rparr>"
  by (simp add: handleNext_def emptySession_def questions_quiz3)

subsection \<open>C6: selecting a choice\<close>

text \<open>
  Claim C6. \<open>selectChoice\<close> leaves the session as it is when it is finished or has no
  current question; on a session that is not finished, for a key of the current
  question's choices, it sets the selection to that key and \<open>submitted\<close> to false,
  whatever \<open>submitted\<close> was.
\<close>

theorem C6_selectChoice_valid_or_noop:
  "(finished s \<or> currentQuestion quizBank s = None \<longrightarrow> selectChoice quizBank key s = s) \<and>
   (\<not> finished s \<and> currentQuestion quizBank s = Some q \<and> choices q key \<noteq> None \<longrightarrow>
      selectChoice quizBank key s = s\<lparr>selectedChoice := Some key, submitted := False\<rparr>)"
proof -
  have noop: "finished s \<or> currentQuestion quizBank s = None \<longrightarrow> selectChoice quizBank key s = s"
    by (auto simp: selectChoice_def questionPanel_def split: option.splits)
  have valid: "\<not> finished s \<and> currentQuestion quizBank s = Some q \<and> choices q key \<noteq> None \<longrightarrow>
      selectChoice quizBank key s = s\<lparr>selectedChoice := Some key, submitted := False\<rparr>"
  proof (intro impI, elim conjE)
    assume nf: "\<not> finished s" and cq: "currentQuestion quizBank s = Some q"
      and ck: "choices q key \<noteq> None"
    from cq have "questionIndex s < length (questionsOf quizBank (activeQuizId s))"
      by (simp add: currentQuestion_def Let_def split: if_splits)
    with nf have "questionPanel quizBank s" by (simp add: questionPanel_iff)
    with cq ck show "selectChoice quizBank key s = s\<lparr>selectedChoice := Some key, submitted := False\<rparr>"
      by (simp add: selectChoice_def handleSelect_def)
  qed
  from noop valid show ?thesis by simp
qed

text \<open>
  Witness for C6: on the finished session, and on the session of the absent quiz 3
  (no current question), the selection is ignored; on the submitted second question of
  quiz 1, choosing A replaces B and re-opens the submission.
\<close>

theorem C6_selectChoice_witness:
  "finished finishedSession \<and>
   selectChoice exampleBank ''A'' finishedSession = finishedSession \<and>
   currentQuestion exampleBank emptySession = None \<and>
   selectChoice exampleBank ''A'' emptySession = emptySession \<and>
   \<not> finished midSession \<and> currentQuestion exampleBank midSession = Some enrichedTwo \<and>
   choices enrichedTwo ''A'' \<noteq> None \<and> submitted midSession \<and>
   selectChoice exampleBank ''A'' midSession =
     \<lparr>activeQuizId = Some ''quiz1'', questionIndex = 1, selectedChoice = Some ''A'',
      finished = False, submitted = False\<rparr>"
proof -
  have f: "finished finishedSession" by (simp add: finishedSession_def)
  have nf: "\<not> finished midSession" and sm: "submitted midSession"
    by (simp_all add: midSession_def)
  have ck: "choices enrichedTwo ''A'' \<noteq> None"
    by (simp add: enrichedTwo_def enrich_def questionTwo_def)
  have nq: "currentQuestion exampleBank emptySession = None"
    by (simp add: currentQuestion_def emptySession_def questions_quiz3)
  from C6_selectChoice_valid_or_noop [of finishedSession exampleBank "''A''"] f
  have a: "selectChoice exampleBank ''A'' finishedSession = finishedSession" by blast
  from C6_selectChoice_valid_or_noop [of emptySession exampleBank "''A''"] nq
  have a': "selectChoice exampleBank ''A'' emptySession = emptySession" by blast
  from C6_selectChoice_valid_or_noop [of midSession exampleBank "''A''" enrichedTwo]
    nf currentQuestion_mid ck
  have "selectChoice exampleBank ''A'' midSession =
      midSession\<lparr>selectedChoice := Some ''A'', submitted := False\<rparr>" by blast
  then have b: "selectChoice exampleBank ''A'' midSession =
     \<lparr>activeQuizId = Some ''quiz1'', questionIndex = 1, selectedChoice = Some ''A'',
      finished = False, submitted = False\<rparr>"
    by (simp add: midSession_def)
  from f a nq a' nf currentQuestion_mid ck sm b show ?thesis by simp
qed

subsection \<open>C7: submitting\<close>

lemma submit_in_panel:
  assumes "questionIndex s < length (questionsOf quizBank (activeQuizId s))"
    and "\<not> finished s" and "selectedChoice s = Some k" and "k \<noteq> []"
  shows "submit quizBank s = s\<lparr>submitted := True\<rparr>"
proof (cases "submitted s")
  case True
  then show ?thesis by (simp add: submit_def)
next
  case False
  from assms(1,2) have "questionPanel quizBank s" by (simp add: questionPanel_iff)
  with False assms(3,4) show ?thesis
    by (simp add: submit_def handleSubmit_def readyToSubmit_def truthy_def)
qed

lemma submit_reachable:
  assumes "reachable quizBank s" and "selectedChoice s = Some k" and "k \<noteq> []"
  shows "submit quizBank s = s\<lparr>submitted := True\<rparr>"
proof -
  from assms(1) have inv: "sessionInv quizBank s" by (rule reachable_sessionInv)
  with assms(2) have range: "questionIndex s < length (questionsOf quizBank (activeQuizId s))"
    by (simp add: sessionInv_def)
  show ?thesis
  proof (cases "finished s")
    case True
    with inv have "submitted s" by (simp add: sessionInv_def)
    then show ?thesis by (simp add: submit_def)
  next
    case False
    from range False assms(2,3) show ?thesis by (rule submit_in_panel)
  qed
qed

text \<open>
  Counterexample to C7 as stated. On quiz 2 the empty key is picked: a selection is set,
  and \<open>submit\<close> leaves \<open>submitted\<close> false. After quiz 1 is finished and replayed no
  selection is set, and after \<open>submit\<close> the flag \<open>submitted\<close> is true, not false. Both
  sessions are reachable.
\<close>

theorem C7_submit_counterexample:
  "reachable exampleBank blankPicked \<and> selectedChoice blankPicked \<noteq> None \<and>
   \<not> submitted (submit exampleBank blankPicked) \<and>
   reachable exampleBank (replay finishedSession) \<and>
   selectedChoice (replay finishedSession) = None \<and>
   submitted (submit exampleBank (replay finishedSession))"
proof -
  have a: "selectedChoice blankPicked \<noteq> None"
    and b: "\<not> submitted (submit exampleBank blankPicked)"
    by (simp_all add: blankPicked_def submit_def readyToSubmit_def truthy_def)
  have c: "selectedChoice (replay finishedSession) = None"
    and d: "submitted (submit exampleBank (replay finishedSession))"
    by (simp_all add: replay_finishedSession submit_def)
  from blankPicked_reachable a b replay_finishedSession_reachable c d show ?thesis by simp
qed

text \<open>
  Claim C7, amended. With a selection that is a non-empty key, the handler
  \<open>handleSubmit\<close> sets \<open>submitted\<close> to true and changes nothing else, and so does
  \<open>submit\<close> on every reachable session and on every session that shows its current
  question. With no selection, or with the empty key selected (the guard
  \<open>!selectedChoice\<close> reads it as no selection), \<open>submit\<close> and the handler leave the
  whole session as it is; in particular \<open>submitted\<close>, when false before, is false after.
\<close>

theorem C7_submit_needs_nonempty_selection:
  "(selectedChoice s = Some k \<and> k \<noteq> [] \<longrightarrow> handleSubmit s = s\<lparr>submitted := True\<rparr>) \<and>
   (selectedChoice s = Some k \<and> k \<noteq> [] \<and> reachable quizBank s \<longrightarrow>
      submit quizBank s = s\<lparr>submitted := True\<rparr> \<and> submitted (submit quizBank s)) \<and>
   (selectedChoice s = Some k \<and> k \<noteq> [] \<and> \<not> finished s \<and> currentQuestion quizBank s \<noteq> None \<longrightarrow>
      submit quizBank s = s\<lparr>submitted := True\<rparr> \<and> submitted (submit quizBank s)) \<and>
   (selectedChoice s = None \<or> selectedChoice s = Some [] \<longrightarrow>
      submit quizBank s = s \<and> handleSubmit s = s) \<and>
   ((selectedChoice s = None \<or> selectedChoice s = Some []) \<and> \<not> submitted s \<longrightarrow>
      \<not> submitted (submit quizBank s) \<and> \<not> submitted (handleSubmit s))"
proof -
  have handler: "selectedChoice s = Some k \<and> k \<noteq> [] \<longrightarrow> handleSubmit s = s\<lparr>submitted := True\<rparr>"
    by (simp add: handleSubmit_def truthy_def)
  have reach: "selectedChoice s = Some k \<and> k \<noteq> [] \<and> reachable quizBank s \<longrightarrow>
      submit quizBank s = s\<lparr>submitted := True\<rparr> \<and> submitted (submit quizBank s)"
  proof (intro impI, elim conjE)
    assume "selectedChoice s = Some k" "k \<noteq> []" "reachable quizBank s"
    then have "submit quizBank s = s\<lparr>submitted := True\<rparr>"
      using submit_reachable [of quizBank s k] by simp
    then show "submit quizBank s = s\<lparr>submitted := True\<rparr> \<and> submitted (submit quizBank s)"
      by simp
  qed
  have shown: "selectedChoice s = Some k \<and> k \<noteq> [] \<and> \<not> finished s \<and>
      currentQuestion quizBank s \<noteq> None \<longrightarrow>
      submit quizBank s = s\<lparr>submitted := True\<rparr> \<and> submitted (submit quizBank s)"
  proof (intro impI, elim conjE)
    assume "selectedChoice s = Some k" "k \<noteq> []" "\<not> finished s"
      and cq: "currentQuestion quizBank s \<noteq> None"
    moreover from cq have "questionIndex s < length (questionsOf quizBank (activeQuizId s))"
      by (simp add: currentQuestion_def Let_def split: if_splits)
    ultimately have "submit quizBank s = s\<lparr>submitted := True\<rparr>"
      by (simp add: submit_in_panel)
    then show "submit quizBank s = s\<lparr>submitted := True\<rparr> \<and> submitted (submit quizBank s)"
      by simp
  qed
  have none: "selectedChoice s = None \<or> selectedChoice s = Some [] \<longrightarrow>
      submit quizBank s = s \<and> handleSubmit s = s"
    by (auto simp: submit_def handleSubmit_def readyToSubmit_def truthy_def)
  have stays: "(selectedChoice s = None \<or> selectedChoice s = Some []) \<and> \<not> submitted s \<longrightarrow>
      \<not> submitted (submit quizBank s) \<and> \<not> submitted (handleSubmit s)"
    using none by auto
  show ?thesis
    by (rule conjI [OF handler conjI [OF reach conjI [OF shown conjI [OF none stays]]]])
qed

lemma run_pickedSession:
  "run exampleBank [SelectChoice ''B''] (initial exampleBank) = pickedSession"
  by (simp add: example_simps pickedSession_def)

lemma pickedSession_reachable: "reachable exampleBank pickedSession"
  using reachable_run_initial [of exampleBank "[SelectChoice ''B'']"]
  by (simp only: run_pickedSession)

lemma currentQuestion_picked: "currentQuestion exampleBank pickedSession = Some enrichedOne"
  by (simp add: currentQuestion_def pickedSession_def questions_quiz1)

text \<open>
  Witness for C7: once B is picked on the first question of quiz 1, the handler and
  \<open>submit\<close> set \<open>submitted\<close> and nothing else; at mount nothing is selected, on quiz 2
  the empty key is selected, and in both sessions \<open>submit\<close> changes nothing and
  \<open>submitted\<close> stays false.
\<close>

theorem C7_submit_witness:
  "selectedChoice pickedSession = Some ''B'' \<and> reachable exampleBank pickedSession \<and>
   \<not> finished pickedSession \<and> currentQuestion exampleBank pickedSession \<noteq> None \<and>
   handleSubmit pickedSession = firstSubmitted \<and>
   submit exampleBank pickedSession = firstSubmitted \<and>
   submitted (submit exampleBank pickedSession) \<and>
   selectedChoice (initial exampleBank) = None \<and> \<not> submitted (initial exampleBank) \<and>
   submit exampleBank (initial exampleBank) = initial exampleBank \<and>
   \<not> submitted (submit exampleBank (initial exampleBank)) \<and>
   selectedChoice blankPicked = Some [] \<and> \<not> submitted blankPicked \<and>
   submit exampleBank blankPicked = blankPicked \<and>
   \<not> submitted (submit exampleBank blankPicked)"
proof -
  have n: "selectedChoice (initial exampleBank) = None"
    and ns: "\<not> submitted (initial exampleBank)"
    by (simp_all add: initial_def)
  have p: "selectedChoice pickedSession = Some ''B''" and nf: "\<not> finished pickedSession"
    by (simp_all add: pickedSession_def)
  have e: "selectedChoice blankPicked = Some []" and es: "\<not> submitted blankPicked"
    by (simp_all add: blankPicked_def)
  have k: "''B'' \<noteq> []" by simp
  have cq: "currentQuestion exampleBank pickedSession \<noteq> None"
    by (simp add: currentQuestion_picked)
  have upd: "pickedSession\<lparr>submitted := True\<rparr> = firstSubmitted"
    by (simp add: pickedSession_def firstSubmitted_def)
  note at0 = C7_submit_needs_nonempty_selection [of "initial exampleBank" "''B''" exampleBank]
  note at1 = C7_submit_needs_nonempty_selection [of pickedSession "''B''" exampleBank]
  note at2 = C7_submit_needs_nonempty_selection [of blankPicked "''B''" exampleBank]
  from at1 p k have b: "handleSubmit pickedSession = firstSubmitted"
    unfolding upd by blast
  from at1 p k pickedSession_reachable
  have c: "submit exampleBank pickedSession = firstSubmitted"
    and c': "submitted (submit exampleBank pickedSession)"
    unfolding upd by blast+
  from at1 p k nf cq have "submit exampleBank pickedSession = firstSubmitted"
    unfolding upd by blast
  from at0 n have a: "submit exampleBank (initial exampleBank) = initial exampleBank" by blast
  from at0 n ns have a': "\<not> submitted (submit exampleBank (initial exampleBank))" by blast
  from at2 e have d: "submit exampleBank blankPicked = blankPicked" by blast
  from at2 e es have d': "\<not> submitted (submit exampleBank blankPicked)" by blast
  from p pickedSession_reachable nf cq b c c' n ns a a' e es d d' show ?thesis by simp
qed

subsection \<open>C8: replaying\<close>

lemma replay_fields:
  "finished s \<Longrightarrow> replay s = s\<lparr>questionIndex := 0, selectedChoice := None, finished := False\<rparr>"
  by (simp add: replay_def replayClick_def)

lemma replay_keeps_submitted: "submitted (replay s) = submitted s"
  by (simp add: replay_def replayClick_def)

lemma finished_reachable_submitted: "reachable quizBank s \<Longrightarrow> finished s \<Longrightarrow> submitted s"
  by (drule reachable_sessionInv) (simp add: sessionInv_def)

lemma replay_reachable_finished_stays_submitted:
  "reachable quizBank s \<Longrightarrow> finished s \<Longrightarrow> submitted (replay s)"
  by (simp add: replay_keeps_submitted finished_reachable_submitted)

text \<open>
  Claim C8, evaluated on the code. Quiz 1 is run to its end (both questions answered,
  submitted and advanced), which gives the finished session, and then replayed: the
  position is 0, the selection is absent, \<open>finished\<close> is false and the quiz is the same,
  but \<open>submitted\<close> is still true, since the replay handler does not reset it. The
  session after a replay is in the submitted sub-state, with Next on display and no
  answer picked.
\<close>

theorem C8_replay_leaves_submitted:
  "run exampleBank [SelectChoice ''B'', Submit, Advance, SelectChoice ''B'', Submit, Advance]
     (initial exampleBank) = finishedSession \<and>
   finished finishedSession \<and>
   replay finishedSession =
     \<lparr>activeQuizId = Some ''quiz1'', questionIndex = 0, selectedChoice = None,
      finished = False, submitted = True\<rparr> \<and>
   questionsOf exampleBank (activeQuizId (replay finishedSession)) =
     questionsOf exampleBank (activeQuizId finishedSession) \<and>
   advance exampleBank (replay finishedSession) =
     \<lparr>activeQuizId = Some ''quiz1'', questionIndex = 1, selectedChoice = None,
      finished = False, submitted = False\<rparr>"
proof -
  have fin: "finished finishedSession"
    by (simp add: finishedSession_def)
  have rep: "replay finishedSession =
     \<lparr>activeQuizId = Some ''quiz1'', questionIndex = 0, selectedChoice = None,
      finished = False, submitted = True\<rparr>"
    by (simp add: finishedSession_def replay_def replayClick_def)
  have same: "questionsOf exampleBank (activeQuizId (replay finishedSession)) =
     questionsOf exampleBank (activeQuizId finishedSession)"
    by (simp add: rep) (simp add: finishedSession_def)
  have adv: "advance exampleBank (replay finishedSession) =
     \<lparr>activeQuizId = Some ''quiz1'', questionIndex = 1, selectedChoice = None,
      finished = False, submitted = False\<rparr>"
    by (simp add: rep advance_def handleNext_def questionPanel_def noQuestionsLoaded_def
        currentQuestion_def truthy_def questions_quiz1)
  from run_finishedSession fin rep same adv show ?thesis by blast
qed

subsection \<open>C9: grading\<close>

lemma isCorrect_unfold:
  "selectedChoice s \<noteq> Some [] \<Longrightarrow>
   isCorrect quizBank s \<longleftrightarrow>
     submitted s \<and>
     (\<exists>q. currentQuestion quizBank s = Some q \<and> selectedChoice s = Some (correct_answer q))"
  by (cases "selectedChoice s"; cases "currentQuestion quizBank s")
    (auto simp: isCorrect_def truthy_def)

lemma isCorrect_needs_submitted: "isCorrect quizBank s \<Longrightarrow> submitted s"
  by (simp add: isCorrect_def split: if_splits)

lemma isCorrect_reachable:
  assumes "reachable quizBank s"
  shows "isCorrect quizBank s \<longleftrightarrow>
     submitted s \<and>
     (\<exists>q. currentQuestion quizBank s = Some q \<and> selectedChoice s = Some (correct_answer q))"
proof (cases "submitted s")
  case True
  from assms have "sessionInv quizBank s" by (rule reachable_sessionInv)
  with True have "selectedChoice s \<noteq> Some []" by (simp add: sessionInv_def)
  then show ?thesis by (rule isCorrect_unfold)
next
  case False
  then show ?thesis using isCorrect_needs_submitted by auto
qed

text \<open>
  Claim C9. For every reachable session (and for every session at all whose selection
  is not the empty key), \<open>isCorrect\<close> is true if and only if \<open>submitted\<close> is true and
  the selection equals the \<open>correct_answer\<close> of the current question. For every
  session, \<open>isCorrect\<close> is false when nothing is submitted, nothing is selected, there is
  no current question, or the selection differs from the correct answer.
\<close>

theorem C9_isCorrect_iff:
  "(reachable quizBank s \<or> selectedChoice s \<noteq> Some [] \<longrightarrow>
      (isCorrect quizBank s \<longleftrightarrow>
         submitted s \<and>
         (\<exists>q. currentQuestion quizBank s = Some q \<and> selectedChoice s = Some (correct_answer q)))) \<and>
   (\<not> submitted s \<or> selectedChoice s = None \<or> currentQuestion quizBank s = None \<longrightarrow>
      \<not> isCorrect quizBank s) \<and>
   (currentQuestion quizBank s = Some q \<and> selectedChoice s \<noteq> Some (correct_answer q) \<longrightarrow>
      \<not> isCorrect quizBank s)"
proof -
  have iff: "reachable quizBank s \<or> selectedChoice s \<noteq> Some [] \<longrightarrow>
      (isCorrect quizBank s \<longleftrightarrow>
         submitted s \<and>
         (\<exists>q. currentQuestion quizBank s = Some q \<and> selectedChoice s = Some (correct_answer q)))"
    using isCorrect_reachable [of quizBank s] isCorrect_unfold [of s quizBank] by blast
  have off: "\<not> submitted s \<or> selectedChoice s = None \<or> currentQuestion quizBank s = None \<longrightarrow>
      \<not> isCorrect quizBank s"
    by (auto simp: isCorrect_def truthy_def)
  have differs: "currentQuestion quizBank s = Some q \<and>
      selectedChoice s \<noteq> Some (correct_answer q) \<longrightarrow> \<not> isCorrect quizBank s"
    by (auto simp: isCorrect_def)
  from iff off differs show ?thesis by blast
qed

text \<open>
  Witness for C9: the submitted second question of quiz 1 has B selected, which is its
  correct answer, and is graded correct; the submitted first question has B selected
  where A is correct, and is graded wrong; at mount nothing is submitted.
\<close>

theorem C9_isCorrect_witness:
  "reachable exampleBank midSession \<and> submitted midSession \<and>
   currentQuestion exampleBank midSession = Some enrichedTwo \<and>
   selectedChoice midSession = Some (correct_answer enrichedTwo) \<and>
   isCorrect exampleBank midSession \<and>
   currentQuestion exampleBank firstSubmitted = Some enrichedOne \<and>
   selectedChoice firstSubmitted \<noteq> Some (correct_answer enrichedOne) \<and>
   \<not> isCorrect exampleBank firstSubmitted \<and>
   \<not> submitted (initial exampleBank) \<and>
   \<not> isCorrect exampleBank (initial exampleBank)"
proof -
  have sm: "submitted midSession"
    and sel: "selectedChoice midSession = Some (correct_answer enrichedTwo)"
    by (simp_all add: midSession_def enrichedTwo_def enrich_def questionTwo_def)
  have cq1: "currentQuestion exampleBank firstSubmitted = Some enrichedOne"
    by (simp add: currentQuestion_def firstSubmitted_def questions_quiz1)
  have sel1: "selectedChoice firstSubmitted \<noteq> Some (correct_answer enrichedOne)"
    by (simp add: firstSubmitted_def enrichedOne_def enrich_def questionOne_def)
  have ns: "\<not> submitted (initial exampleBank)" by (simp add: initial_def)
  from C9_isCorrect_iff [of exampleBank midSession] midSession_reachable sm
    currentQuestion_mid sel
  have a: "isCorrect exampleBank midSession" by blast
  from C9_isCorrect_iff [of exampleBank firstSubmitted enrichedOne] cq1 sel1
  have b: "\<not> isCorrect exampleBank firstSubmitted" by blast
  from C9_isCorrect_iff [of exampleBank "initial exampleBank"] ns
  have c: "\<not> isCorrect exampleBank (initial exampleBank)" by blast
  from midSession_reachable sm currentQuestion_mid sel a cq1 sel1 b ns c show ?thesis by simp
qed

subsection \<open>C10: the empty choice key\<close>

lemma handleSubmit_after_empty_key: "handleSubmit (handleSelect [] s) = handleSelect [] s"
  by (simp add: handleSubmit_def handleSelect_def truthy_def)

lemma submit_empty_key: "selectedChoice s = Some [] \<Longrightarrow> submit quizBank s = s"
  by (simp add: submit_def readyToSubmit_def truthy_def)

lemma isCorrect_empty_key: "selectedChoice s = Some [] \<Longrightarrow> \<not> isCorrect quizBank s"
  by (simp add: isCorrect_def truthy_def)

text \<open>
  Claim C10. On every session that shows a current question having the empty string
  among its choice keys, selecting that choice and then calling \<open>submit\<close> leaves the
  empty key selected and \<open>submitted\<close> false, and the answer is not graded correct. The
  handlers alone behave the same on every session. On every session with the empty key
  selected \<open>submit\<close> changes nothing and \<open>isCorrect\<close> is false, and no reachable session
  has the empty key selected and \<open>submitted\<close> true.
\<close>

theorem C10_empty_key_never_submitted:
  "(\<not> finished s \<and> currentQuestion quizBank s = Some q \<and> choices q [] \<noteq> None \<longrightarrow>
      selectedChoice (submit quizBank (selectChoice quizBank [] s)) = Some [] \<and>
      \<not> submitted (submit quizBank (selectChoice quizBank [] s)) \<and>
      \<not> isCorrect quizBank (submit quizBank (selectChoice quizBank [] s))) \<and>
   handleSubmit (handleSelect [] s) = s\<lparr>selectedChoice := Some [], submitted := False\<rparr> \<and>
   (selectedChoice s = Some [] \<longrightarrow> submit quizBank s = s \<and> \<not> isCorrect quizBank s) \<and>
   (selectedChoice s = Some [] \<and> reachable quizBank s \<longrightarrow> \<not> submitted s)"
proof -
  have shown: "\<not> finished s \<and> currentQuestion quizBank s = Some q \<and> choices q [] \<noteq> None \<longrightarrow>
      selectedChoice (submit quizBank (selectChoice quizBank [] s)) = Some [] \<and>
      \<not> submitted (submit quizBank (selectChoice quizBank [] s)) \<and>
      \<not> isCorrect quizBank (submit quizBank (selectChoice quizBank [] s))"
  proof (intro impI, elim conjE)
    assume nf: "\<not> finished s" and cq: "currentQuestion quizBank s = Some q"
      and ck: "choices q [] \<noteq> None"
    from cq have "questionIndex s < length (questionsOf quizBank (activeQuizId s))"
      by (simp add: currentQuestion_def Let_def split: if_splits)
    with nf have "questionPanel quizBank s" by (simp add: questionPanel_iff)
    with cq ck have sel: "selectChoice quizBank [] s = s\<lparr>selectedChoice := Some [], submitted := False\<rparr>"
      by (simp add: selectChoice_def handleSelect_def)
    then have "selectedChoice (selectChoice quizBank [] s) = Some []" by simp
    then have sub: "submit quizBank (selectChoice quizBank [] s) = selectChoice quizBank [] s"
      and "\<not> isCorrect quizBank (selectChoice quizBank [] s)"
      by (simp_all add: submit_empty_key isCorrect_empty_key)
    then show "selectedChoice (submit quizBank (selectChoice quizBank [] s)) = Some [] \<and>
      \<not> submitted (submit quizBank (selectChoice quizBank [] s)) \<and>
      \<not> isCorrect quizBank (submit quizBank (selectChoice quizBank [] s))"
      by (simp add: sel)
  qed
  have handlers: "handleSubmit (handleSelect [] s) = s\<lparr>selectedChoice := Some [], submitted := False\<rparr>"
    by (simp add: handleSubmit_after_empty_key) (simp add: handleSelect_def)
  have held: "selectedChoice s = Some [] \<longrightarrow> submit quizBank s = s \<and> \<not> isCorrect quizBank s"
    by (simp add: submit_empty_key isCorrect_empty_key)
  have never: "selectedChoice s = Some [] \<and> reachable quizBank s \<longrightarrow> \<not> submitted s"
  proof (intro impI, elim conjE)
    assume e: "selectedChoice s = Some []" and "reachable quizBank s"
    then have "sessionInv quizBank s" by (simp add: reachable_sessionInv)
    with e show "\<not> submitted s" by (auto simp: sessionInv_def)
  qed
  from shown handlers held never show ?thesis by blast
qed

lemma currentQuestion_blank: "currentQuestion exampleBank blankSession = Some enrichedBlank"
  by (simp add: currentQuestion_def blankSession_def questions_quiz2)

lemma selectChoice_blank: "selectChoice exampleBank [] blankSession = blankPicked"
  by (simp add: example_simps blankSession_def blankPicked_def)

text \<open>
  Witness for C10: on quiz 2 the empty key is a choice (and the correct answer);
  selecting it and submitting leaves it selected, not submitted and not graded correct.
\<close>

theorem C10_empty_key_witness:
  "\<not> finished blankSession \<and> currentQuestion exampleBank blankSession = Some enrichedBlank \<and>
   choices enrichedBlank [] \<noteq> None \<and> correct_answer enrichedBlank = [] \<and>
   submit exampleBank (selectChoice exampleBank [] blankSession) = blankPicked \<and>
   \<not> submitted (submit exampleBank (selectChoice exampleBank [] blankSession)) \<and>
   \<not> isCorrect exampleBank (submit exampleBank (selectChoice exampleBank [] blankSession)) \<and>
   selectedChoice blankPicked = Some [] \<and> reachable exampleBank blankPicked \<and>
   \<not> submitted blankPicked"
proof -
  have nf: "\<not> finished blankSession" by (simp add: blankSession_def)
  have ck: "choices enrichedBlank [] \<noteq> None" and ca: "correct_answer enrichedBlank = []"
    by (simp_all add: enrichedBlank_def enrich_def questionBlank_def)
  have sp: "selectedChoice blankPicked = Some []" by (simp add: blankPicked_def)
  note at0 = C10_empty_key_never_submitted [of blankSession exampleBank enrichedBlank]
  note at1 = C10_empty_key_never_submitted [of blankPicked exampleBank enrichedBlank]
  from at0 nf currentQuestion_blank ck
  have a: "\<not> submitted (submit exampleBank (selectChoice exampleBank [] blankSession))"
    and b: "\<not> isCorrect exampleBank (submit exampleBank (selectChoice exampleBank [] blankSession))"
    by blast+
  from at1 sp have "submit exampleBank blankPicked = blankPicked" by blast
  then have c: "submit exampleBank (selectChoice exampleBank [] blankSession) = blankPicked"
    by (simp add: selectChoice_blank)
  from at1 sp blankPicked_reachable have d: "\<not> submitted blankPicked" by blast
  from nf currentQuestion_blank ck ca c a b sp blankPicked_reachable d show ?thesis by simp
qed

end
